theory Spec2Isabelle
  imports Main "HOL-Library.Char_ord"
begin

section \<open>Strings and the string methods used by the highlighter\<close>

text \<open>
  A JavaScript string is a sequence of UTF-16 code units. The model uses \<^typ>\<open>string\<close>,
  whose characters are the code units \<open>0x00 .. 0xFF\<close>; texts with larger code units are
  outside the model. Indices are natural numbers, as \<open>match.index\<close> and \<open>lastIndex\<close> are.
\<close>

text \<open>
  \<open>String.prototype.trim\<close> removes white space and line terminators at both ends. In the
  range of the model these are TAB, LF, VT, FF, CR, SPACE and NBSP.
\<close>

definition is_white_space :: "char \<Rightarrow> bool" where
  "is_white_space c =
     (c = CHR 0x09 \<or> c = CHR 0x0A \<or> c = CHR 0x0B \<or> c = CHR 0x0C \<or> c = CHR 0x0D
      \<or> c = CHR 0x20 \<or> c = CHR 0xA0)"

definition trim :: "string \<Rightarrow> string" where
  "trim s = rev (dropWhile is_white_space (rev (dropWhile is_white_space s)))"

text \<open>\<open>''.padStart(n, ' ')\<close>: the receiver padded on the left with the filler up to length \<open>n\<close>.\<close>

definition padStart :: "string \<Rightarrow> nat \<Rightarrow> string \<Rightarrow> string" where
  "padStart s n fill =
     (if n \<le> length s \<or> fill = [] then s
      else take (n - length s) (concat (replicate (n - length s) fill)) @ s)"

text \<open>
  \<open>s.indexOf(search)\<close>, the position of the first occurrence, which is where
  \<open>String.prototype.replace\<close> with a string pattern replaces.
\<close>

fun indexOf :: "string \<Rightarrow> string \<Rightarrow> nat option" where
  "indexOf [] search = (if search = [] then Some 0 else None)"
| "indexOf (x # xs) search =
     (if take (length search) (x # xs) = search then Some 0
      else map_option Suc (indexOf xs search))"

text \<open>
  The replacement argument of \<open>replace\<close> is a template: \<open>$$\<close> stands for a dollar sign,
  \<open>$&\<close> for the matched text, \<open>$`\<close> for the text before the match and \<open>$'\<close> for the text
  after it. With a string pattern there are no capture groups, so every other \<open>$\<close> is
  copied as it is.
\<close>

fun getSubstitution :: "string \<Rightarrow> string \<Rightarrow> string \<Rightarrow> string \<Rightarrow> string" where
  "getSubstitution matched pre post [] = []"
| "getSubstitution matched pre post [c] = [c]"
| "getSubstitution matched pre post (c # d # cs) =
     (if c = CHR ''$'' then
        (if d = CHR ''$'' then CHR ''$'' # getSubstitution matched pre post cs
         else if d = CHR ''&'' then matched @ getSubstitution matched pre post cs
         else if d = CHR 0x60 then pre @ getSubstitution matched pre post cs
         else if d = CHR 0x27 then post @ getSubstitution matched pre post cs
         else c # getSubstitution matched pre post (d # cs))
      else c # getSubstitution matched pre post (d # cs))"

definition replace :: "string \<Rightarrow> string \<Rightarrow> string \<Rightarrow> string" where
  "replace s search replacement =
     (case indexOf s search of
        None \<Rightarrow> s
      | Some k \<Rightarrow>
          take k s
          @ getSubstitution search (take k s) (drop (k + length search) s) replacement
          @ drop (k + length search) s)"

text \<open>\<open>replaceAt\<close> of help.js; \<open>substring(0, index)\<close> is \<open>take\<close>, \<open>substring(index)\<close> is \<open>drop\<close>.\<close>

definition replaceAt :: "string \<Rightarrow> string \<Rightarrow> nat \<Rightarrow> string \<Rightarrow> string" where
  "replaceAt str search index replacement =
     take index str @ replace (drop index str) search replacement"

section \<open>Regular expressions\<close>

text \<open>
  Every pattern of \<open>encode\<close> is a sequence of character classes, each taken once or
  under one of the quantifiers \<open>?\<close>, \<open>*\<close>, \<open>+\<close> (greedy) and \<open>*?\<close> (lazy). \<open>matchAt\<close> is the
  backtracking matcher of the language on this fragment: it returns the length of the
  first match, in the order of preference of the quantifiers, that starts at the head
  of the text.
\<close>

datatype quantifier = Once | Optional | Star | Plus | LazyStar

type_synonym pattern = "(quantifier \<times> (char \<Rightarrow> bool)) list"

fun matchAt :: "pattern \<Rightarrow> string \<Rightarrow> nat option" where
  "matchAt [] s = Some 0"
| "matchAt ((Once, c) # p) [] = None"
| "matchAt ((Once, c) # p) (x # xs) =
     (if c x then map_option Suc (matchAt p xs) else None)"
| "matchAt ((Optional, c) # p) [] = matchAt p []"
| "matchAt ((Optional, c) # p) (x # xs) =
     (if c x then
        (case matchAt p xs of Some n \<Rightarrow> Some (Suc n) | None \<Rightarrow> matchAt p (x # xs))
      else matchAt p (x # xs))"
| "matchAt ((Star, c) # p) [] = matchAt p []"
| "matchAt ((Star, c) # p) (x # xs) =
     (if c x then
        (case matchAt ((Star, c) # p) xs of
           Some n \<Rightarrow> Some (Suc n)
         | None \<Rightarrow> matchAt p (x # xs))
      else matchAt p (x # xs))"
| "matchAt ((Plus, c) # p) [] = None"
| "matchAt ((Plus, c) # p) (x # xs) =
     (if c x then map_option Suc (matchAt ((Star, c) # p) xs) else None)"
| "matchAt ((LazyStar, c) # p) [] = matchAt p []"
| "matchAt ((LazyStar, c) # p) (x # xs) =
     (case matchAt p (x # xs) of
        Some n \<Rightarrow> Some n
      | None \<Rightarrow> if c x then map_option Suc (matchAt ((LazyStar, c) # p) xs) else None)"

text \<open>
  The search of \<open>exec\<close>: the start positions are tried from left to right, the end of the
  text included; the result is the index and the length of the match.
\<close>

fun search_from :: "pattern \<Rightarrow> string \<Rightarrow> nat \<Rightarrow> (nat \<times> nat) option" where
  "search_from p [] i = map_option (Pair i) (matchAt p [])"
| "search_from p (x # xs) i =
     (case matchAt p (x # xs) of
        Some n \<Rightarrow> Some (i, n)
      | None \<Rightarrow> search_from p xs (Suc i))"

text \<open>
  \<open>regexp.exec(str)\<close> of a global expression whose \<open>lastIndex\<close> is the given one. The caller
  sets \<open>lastIndex\<close> to the end of the match on success; on failure it is reset to \<open>0\<close>.
\<close>

definition exec :: "pattern \<Rightarrow> string \<Rightarrow> nat \<Rightarrow> (nat \<times> nat) option" where
  "exec p str lastIndex =
     (if length str < lastIndex then None
      else search_from p (drop lastIndex str) lastIndex)"

subsection \<open>The character classes of the seven patterns\<close>

definition is_digit :: "char \<Rightarrow> bool" where
  "is_digit c = (CHR ''0'' \<le> c \<and> c \<le> CHR ''9'')"

definition is_alnum :: "char \<Rightarrow> bool" where
  "is_alnum c =
     ((CHR ''a'' \<le> c \<and> c \<le> CHR ''z'') \<or> (CHR ''A'' \<le> c \<and> c \<le> CHR ''Z'') \<or> is_digit c)"

definition is_word :: "char \<Rightarrow> bool" where
  "is_word c = (is_alnum c \<or> c = CHR ''_'')"

definition is_data :: "char \<Rightarrow> bool" where
  "is_data c = (is_word c \<or> c = CHR ''.'')"

definition is_octal :: "char \<Rightarrow> bool" where
  "is_octal c = (CHR ''0'' \<le> c \<and> c \<le> CHR ''7'')"

definition is_radix_letter :: "char \<Rightarrow> bool" where
  "is_radix_letter c =
     (c = CHR ''x'' \<or> c = CHR ''X'' \<or> c = CHR ''b'' \<or> c = CHR ''B''
      \<or> c = CHR ''o'' \<or> c = CHR ''O'')"

text \<open>The dot without the \<open>s\<close> flag excludes the line terminators; with it, nothing.\<close>

definition dot :: "char \<Rightarrow> bool" where
  "dot c = (c \<noteq> CHR 0x0A \<and> c \<noteq> CHR 0x0D)"

definition dot_all :: "char \<Rightarrow> bool" where
  "dot_all c = True"

definition lit :: "char \<Rightarrow> char \<Rightarrow> bool" where
  "lit a c = (c = a)"

section \<open>The encoder of help.js\<close>

text \<open>
  \<open>encode\<close> of help.js is seven \<open>while\<close> loops with the same body, one after the other.
  They differ in the regular expression and in the template of the replacement; a
  \<open>rule\<close> names a loop. (The second copy of the file among the sources has the same
  \<open>encode\<close> and \<open>replaceAt\<close>.)
\<close>

datatype rule =
  LineComment | BlockComment | Radix | Decorator | FunctionHead | CloseParen | Data

text \<open>
  The regular expression of each loop, in the order of the source. As the source
  writes them (all with the flags \<open>gm\<close>, the second with \<open>gms\<close>):

  \<^item> \<^verbatim>\<open>\/\/.*\<close>
  \<^item> \<^verbatim>\<open>\/\*.*?\*\/\<close>
  \<^item> \<^verbatim>\<open>0[xXbBoO]?[a-zA-Z0-9]+\<close>
  \<^item> \<^verbatim>\<open>\@[0-9A-Za-z_]+\<close>
  \<^item> \<^verbatim>\<open>[0-9A-Za-z_]*\(\<close>
  \<^item> \<^verbatim>\<open>\)\<close>
  \<^item> \<^verbatim>\<open>\"?\'?[0-9A-Za-z\._]+[eE]?[\-\+]?[0-7]*\"?\'?\<close>

  The flag \<open>g\<close> makes \<open>exec\<close> start at \<open>lastIndex\<close>; \<open>m\<close> changes only the anchors, of
  which there are none; \<open>s\<close> lets the dot match line terminators.
\<close>

fun regexp :: "rule \<Rightarrow> pattern" where
  "regexp LineComment = [(Once, lit CHR ''/''), (Once, lit CHR ''/''), (Star, dot)]"
| "regexp BlockComment =
     [(Once, lit CHR ''/''), (Once, lit CHR ''*''), (LazyStar, dot_all),
      (Once, lit CHR ''*''), (Once, lit CHR ''/'')]"
| "regexp Radix = [(Once, lit CHR ''0''), (Optional, is_radix_letter), (Plus, is_alnum)]"
| "regexp Decorator = [(Once, lit CHR ''@''), (Plus, is_word)]"
| "regexp FunctionHead = [(Star, is_word), (Once, lit CHR ''('')]"
| "regexp CloseParen = [(Once, lit CHR '')'')]"
| "regexp Data =
     [(Optional, lit CHR 0x22), (Optional, lit CHR 0x27), (Plus, is_data),
      (Optional, (\<lambda>c. c = CHR ''e'' \<or> c = CHR ''E'')),
      (Optional, (\<lambda>c. c = CHR ''-'' \<or> c = CHR ''+'')),
      (Star, is_octal), (Optional, lit CHR 0x22), (Optional, lit CHR 0x27)]"

text \<open>The template literal that builds \<open>replacement\<close> from \<open>match[0]\<close> in each loop.\<close>

fun replacement :: \<open>rule \<Rightarrow> string \<Rightarrow> string\<close> where
  \<open>replacement LineComment m = ''<span class="comment">'' @ m @ ''</span>''\<close>
| \<open>replacement BlockComment m = ''<span class="comment">'' @ m @ ''</span>''\<close>
| \<open>replacement Radix m = ''<span class="radix">'' @ m @ ''</span>''\<close>
| \<open>replacement Decorator m = ''<span class="decorator">'' @ m @ ''</span>''\<close>
| \<open>replacement FunctionHead m = ''<span class="function">'' @ m\<close>
| \<open>replacement CloseParen m = m @ ''</span>''\<close>
| \<open>replacement Data m = ''<span class="data">'' @ m @ ''</span>''\<close>

text \<open>
  The body of a \<open>while\<close> loop for a match at \<open>index\<close> of length \<open>n\<close>: the scan buffer
  \<open>str\<close> gets as many spaces as the replacement is long, the result buffer gets the
  replacement.
\<close>

definition mask_step :: "rule \<Rightarrow> string \<times> string \<Rightarrow> nat \<Rightarrow> nat \<Rightarrow> string \<times> string" where
  "mask_step r bufs index n =
     (let str = fst bufs; result = snd bufs;
          m = take n (drop index str);
          rep = replacement r m
      in (replaceAt str m index (padStart [] (length rep) '' ''),
          replaceAt result m index rep))"

text \<open>
  One \<open>while ((match = regexp.exec(str)) !== null)\<close> loop; the state is the two buffers
  and the \<open>lastIndex\<close> of the expression, which a match moves to its end.
\<close>

function rule_loop :: "rule \<Rightarrow> string \<times> string \<Rightarrow> nat \<Rightarrow> string \<times> string" where
  "rule_loop r bufs lastIndex =
     (case exec (regexp r) (fst bufs) lastIndex of
        None \<Rightarrow> bufs
      | Some (index, n) \<Rightarrow> rule_loop r (mask_step r bufs index n) (index + n))"
  by pat_completeness auto

text \<open>\<open>encode\<close>: trim, then the seven loops in order, each with a new expression.\<close>

definition encode :: "string \<Rightarrow> string" where
  "encode text =
     (let str = trim text;
          b0 = (str, str);
          b1 = rule_loop LineComment b0 0;
          b2 = rule_loop BlockComment b1 0;
          b3 = rule_loop Radix b2 0;
          b4 = rule_loop Decorator b3 0;
          b5 = rule_loop FunctionHead b4 0;
          b6 = rule_loop CloseParen b5 0;
          b7 = rule_loop Data b6 0
      in snd b7)"

text \<open>
  The loops as a relation between the state at a loop head and the state at the exit:
  \<open>loop_run r bufs lastIndex out\<close> holds when the \<open>while\<close> loop of rule \<open>r\<close>, entered with
  the buffers \<open>bufs\<close> and the expression at \<open>lastIndex\<close>, leaves with the buffers \<open>out\<close>.
\<close>

inductive loop_run :: "rule \<Rightarrow> string \<times> string \<Rightarrow> nat \<Rightarrow> string \<times> string \<Rightarrow> bool" where
  loop_exit: "exec (regexp r) (fst bufs) lastIndex = None \<Longrightarrow> loop_run r bufs lastIndex bufs"
| loop_iter: "exec (regexp r) (fst bufs) lastIndex = Some (index, n) \<Longrightarrow>
     loop_run r (mask_step r bufs index n) (index + n) out \<Longrightarrow>
     loop_run r bufs lastIndex out"

inductive encode_run :: "string \<Rightarrow> string \<Rightarrow> bool" where
  encode_runI: "loop_run LineComment (trim text, trim text) 0 b1 \<Longrightarrow>
     loop_run BlockComment b1 0 b2 \<Longrightarrow>
     loop_run Radix b2 0 b3 \<Longrightarrow>
     loop_run Decorator b3 0 b4 \<Longrightarrow>
     loop_run FunctionHead b4 0 b5 \<Longrightarrow>
     loop_run CloseParen b5 0 b6 \<Longrightarrow>
     loop_run Data b6 0 b7 \<Longrightarrow>
     encode_run text (snd b7)"

text \<open>The rules in the order in which \<open>encode\<close> runs their loops.\<close>

definition rules :: "rule list" where
  "rules = [LineComment, BlockComment, Radix, Decorator, FunctionHead, CloseParen, Data]"

text \<open>No pattern of \<open>encode\<close> matches anywhere in the text.\<close>

definition no_rule_matches :: "string \<Rightarrow> bool" where
  "no_rule_matches text = list_all (\<lambda>r. exec (regexp r) text 0 = None) rules"

text \<open>
  The spec's side of one claim: the spec speaks of the HTML-escaped input. No function of
  the sources escapes anything; this is HTML escaping as it is usually done, the five
  characters with a special meaning in HTML replaced by their entities, and it is used
  only to say what the output is not.
\<close>

fun spec_html_escape :: \<open>string \<Rightarrow> string\<close> where
  \<open>spec_html_escape [] = []\<close>
| \<open>spec_html_escape (c # cs) =
     (if c = CHR ''&'' then ''&amp;''
      else if c = CHR ''<'' then ''&lt;''
      else if c = CHR ''>'' then ''&gt;''
      else if c = CHR 0x22 then ''&quot;''
      else if c = CHR 0x27 then ''&#39;''
      else [c]) @ spec_html_escape cs\<close>

subsection \<open>Measures used in the analysis of the loops\<close>

text \<open>A pattern whose every match begins with a character other than a space.\<close>

fun nonblank_start :: "pattern \<Rightarrow> bool" where
  "nonblank_start [] = False"
| "nonblank_start ((Once, c) # p) = (\<not> c CHR '' '')"
| "nonblank_start ((Plus, c) # p) = (\<not> c CHR '' '')"
| "nonblank_start ((q, c) # p) = (\<not> c CHR '' '' \<and> nonblank_start p)"

text \<open>A pattern none of whose character classes holds the space.\<close>

definition space_free :: "pattern \<Rightarrow> bool" where
  "space_free p = list_all (\<lambda>qc. \<not> snd qc CHR '' '') p"



text \<open>The number of characters of a buffer that are not spaces.\<close>

definition ink :: "string \<Rightarrow> nat" where
  "ink s = length (filter (\<lambda>c. c \<noteq> CHR '' '') s)"

section \<open>The formatter registry and the sample batch\<close>

text \<open>
  The classes \<open>LavendeuxFormatter\<close>, \<open>JavascriptFormatter\<close> and \<open>JSONSample\<close> are imported from
  modules that are not part of the sources. The registry holds one instance of each
  formatter class; \<open>Instance c\<close> is the object made by \<open>new c()\<close>.
\<close>

datatype formatter_class = LavendeuxFormatter | JavascriptFormatter

text \<open>
  The values a property of \<open>FormatterInstances\<close> can have: a formatter instance, the arrow
  function stored under \<open>get\<close>, a member inherited from \<open>Object.prototype\<close>, or \<open>undefined\<close>.
\<close>

datatype jsvalue = Instance formatter_class | GetFunction | Inherited string | Undefined

text \<open>The own properties, after the assignment to \<open>FormatterInstances.get\<close>.\<close>

definition own_properties :: "(string \<times> jsvalue) list" where
  "own_properties =
     [(''lavendeux'', Instance LavendeuxFormatter),
      (''javascript'', Instance JavascriptFormatter),
      (''get'', GetFunction)]"

text \<open>
  \<open>FormatterInstances\<close> is an object literal, so its prototype is \<open>Object.prototype\<close>; these
  are the property names of the standard \<open>Object.prototype\<close>.
\<close>

definition object_prototype_keys :: "string list" where
  "object_prototype_keys =
     [''constructor'', ''hasOwnProperty'', ''isPrototypeOf'', ''propertyIsEnumerable'',
      ''toLocaleString'', ''toString'', ''valueOf'', ''__proto__'',
      ''__defineGetter__'', ''__defineSetter__'', ''__lookupGetter__'', ''__lookupSetter__'']"

text \<open>\<open>name in FormatterInstances\<close>: own and inherited properties.\<close>

definition has_property :: "string \<Rightarrow> bool" where
  "has_property name =
     (name \<in> set (map fst own_properties) \<or> name \<in> set object_prototype_keys)"

text \<open>\<open>FormatterInstances[name]\<close>.\<close>

definition get_property :: "string \<Rightarrow> jsvalue" where
  "get_property name =
     (case map_of own_properties name of
        Some v \<Rightarrow> v
      | None \<Rightarrow> if name \<in> set object_prototype_keys then Inherited name else Undefined)"

definition FormatterInstances_get :: "string \<Rightarrow> jsvalue" where
  "FormatterInstances_get name =
     (if has_property name then get_property name else get_property ''lavendeux'')"

text \<open>The names under which a formatter is registered.\<close>

definition registered :: "string \<Rightarrow> bool" where
  "registered name = (\<exists>c. map_of own_properties name = Some (Instance c))"

text \<open>
  A sample has the field \<open>formatter\<close>, the id of its formatter; its other fields are in the
  extension of the record. Its method \<open>toHTML\<close> and the list returned by \<open>getAllSamples\<close>
  come from the module of \<open>JSONSample\<close> and are parameters here.
\<close>

record sample =
  formatter :: string

definition getAllFormattedSamples ::
  "('a sample_scheme \<Rightarrow> jsvalue \<Rightarrow> string) \<Rightarrow> 'a sample_scheme list \<Rightarrow> string list" where
  "getAllFormattedSamples toHTML allSamples =
     map (\<lambda>s. toHTML s (FormatterInstances_get (formatter s))) allSamples"

text \<open>
  \<open>Array.prototype.join\<close>: the elements are appended to the result from left to right, the
  separator before every element but the first (\<open>k\<close> is the index of the element).
\<close>

fun join_from :: "nat \<Rightarrow> string \<Rightarrow> string list \<Rightarrow> string \<Rightarrow> string" where
  "join_from k R [] sep = R"
| "join_from k R (x # xs) sep = join_from (Suc k) ((if 0 < k then R @ sep else R) @ x) xs sep"

definition join :: "string list \<Rightarrow> string \<Rightarrow> string" where
  "join xs sep = join_from 0 [] xs sep"

definition getSampleHTML ::
  "('a sample_scheme \<Rightarrow> jsvalue \<Rightarrow> string) \<Rightarrow> 'a sample_scheme list \<Rightarrow> string" where
  "getSampleHTML toHTML allSamples =
     join (getAllFormattedSamples toHTML allSamples) ''\<newline>''"

text \<open>
  The spec's side of the join: the fragments one after the other, in their order, with a
  newline between neighbours. It is compared with \<open>join\<close>, which follows the source.
\<close>

fun spec_newline_joined :: "string list \<Rightarrow> string" where
  "spec_newline_joined [] = []"
| "spec_newline_joined [x] = x"
| "spec_newline_joined (x # y # ys) = x @ ''\<newline>'' @ spec_newline_joined (y # ys)"

section \<open>Properties of the string methods and of the matcher\<close>

lemma matchAt_le: "matchAt p s = Some n \<Longrightarrow> n \<le> length s"
  by (induction p s arbitrary: n rule: matchAt.induct)
     (auto split: if_splits option.splits)

lemma search_from_sound:
  "search_from p s i = Some (j, n) \<Longrightarrow>
     i \<le> j \<and> j - i \<le> length s \<and> matchAt p (drop (j - i) s) = Some n"
proof (induction s arbitrary: i)
  case Nil
  then show ?case by auto
next
  case (Cons x xs)
  show ?case
  proof (cases "matchAt p (x # xs)")
    case None
    with Cons.prems have "search_from p xs (Suc i) = Some (j, n)" by simp
    from Cons.IH[OF this] have a: "Suc i \<le> j" and b: "j - Suc i \<le> length xs"
      and c: "matchAt p (drop (j - Suc i) xs) = Some n" by auto
    from a have "j - i = Suc (j - Suc i)" by simp
    with a b c show ?thesis by simp
  next
    case (Some k)
    with Cons.prems show ?thesis by simp
  qed
qed

lemma exec_sound:
  assumes "exec p str li = Some (i, n)"
  shows "li \<le> i" and "i + n \<le> length str" and "matchAt p (drop i str) = Some n"
proof -
  from assms have le: "li \<le> length str"
    and s: "search_from p (drop li str) li = Some (i, n)"
    by (auto simp: exec_def split: if_splits)
  from search_from_sound[OF s]
  have a: "li \<le> i" and b: "i - li \<le> length str - li"
    and c: "matchAt p (drop (i - li) (drop li str)) = Some n" by auto
  from a show "li \<le> i" .
  from a c show m: "matchAt p (drop i str) = Some n" by simp
  from matchAt_le[OF m] a b le show "i + n \<le> length str" by simp
qed

lemma indexOf_prefix: "indexOf (m @ rest) m = Some 0"
proof (cases "m @ rest")
  case Nil
  then show ?thesis by simp
next
  case (Cons x xs)
  have "take (length m) (m @ rest) = m" by simp
  with Cons show ?thesis by simp
qed

lemma getSubstitution_plain:
  "CHR ''$'' \<notin> set t \<Longrightarrow> getSubstitution m b a t = t"
  by (induction m b a t rule: getSubstitution.induct) auto

lemma padStart_spaces: "padStart [] n '' '' = replicate n CHR '' ''"
  by (induction n) (auto simp: padStart_def)

lemma replaceAt_scan:
  assumes "i + n \<le> length str"
  shows "replaceAt str (take n (drop i str)) i (replicate k CHR '' '')
         = take i str @ replicate k CHR '' '' @ drop (i + n) str"
proof -
  have "drop i str = take n (drop i str) @ drop n (drop i str)"
    by (rule append_take_drop_id[symmetric])
  then have "indexOf (drop i str) (take n (drop i str)) = Some 0"
    using indexOf_prefix by metis
  moreover have "length (take n (drop i str)) = n" using assms by simp
  ultimately show ?thesis
    by (simp add: replaceAt_def replace_def getSubstitution_plain add.commute)
qed

lemma matchAt_nonblank:
  "nonblank_start p \<Longrightarrow> matchAt p s = Some n \<Longrightarrow> s \<noteq> [] \<and> hd s \<noteq> CHR '' '' \<and> 0 < n"
proof (induction p s arbitrary: n rule: matchAt.induct)
  case (7 c p x xs)
  then show ?case by (cases "c x") (auto split: option.splits)
next
  case (11 c p x xs)
  then show ?case by (cases "c x") (auto split: option.splits)
qed (auto split: if_splits option.splits)

lemma regexp_nonblank: "nonblank_start (regexp r)"
  by (cases r)
     (simp_all add: lit_def is_radix_letter_def is_alnum_def is_word_def is_data_def
        is_digit_def is_octal_def dot_def dot_all_def)

lemma ink_append: "ink (a @ b) = ink a + ink b"
  by (simp add: ink_def)

lemma ink_spaces: "ink (replicate k CHR '' '') = 0"
  by (simp add: ink_def)

lemma ink_pos: "s \<noteq> [] \<Longrightarrow> hd s \<noteq> CHR '' '' \<Longrightarrow> 0 < ink s"
  by (cases s) (auto simp: ink_def)

section \<open>The loops terminate\<close>

text \<open>
  The scan buffer after one pass of a loop body: the match is replaced by as many spaces
  as the replacement is long, and nothing else changes.
\<close>

lemma scan_buffer_step:
  assumes "exec (regexp r) str li = Some (i, n)"
  shows "fst (mask_step r (str, res) i n)
         = take i str @ replicate (length (replacement r (take n (drop i str)))) CHR '' ''
           @ drop (i + n) str"
  using exec_sound(2)[OF assms]
  by (simp add: mask_step_def Let_def padStart_spaces replaceAt_scan)

text \<open>Every match holds a character that is not a space, and masking removes it.\<close>

lemma ink_decreases:
  assumes "exec (regexp r) str li = Some (i, n)"
  shows "ink (fst (mask_step r (str, res) i n)) < ink str"
proof -
  from exec_sound[OF assms] have le: "i + n \<le> length str"
    and m: "matchAt (regexp r) (drop i str) = Some n" by auto
  from matchAt_nonblank[OF regexp_nonblank m]
  have ne: "drop i str \<noteq> []" and hd: "hd (drop i str) \<noteq> CHR '' ''" and n: "0 < n" by auto
  let ?m = "take n (drop i str)"
  from ne n have "?m \<noteq> []" by simp
  moreover from n ne have "hd ?m = hd (drop i str)" by (cases "drop i str") (cases n, auto)+
  ultimately have pos: "0 < ink ?m" using hd ink_pos by metis
  have "str = take i str @ ?m @ drop (i + n) str"
    by (metis append_take_drop_id drop_drop add.commute)
  then have "ink str = ink (take i str) + ink ?m + ink (drop (i + n) str)"
    by (metis ink_append add.assoc)
  with pos show ?thesis
    by (simp add: scan_buffer_step[OF assms] ink_append ink_spaces)
qed

termination rule_loop
proof (relation "measure (\<lambda>(r, bufs, li). ink (fst bufs))")
  show "wf (measure (\<lambda>(r, bufs, li). ink (fst bufs)))" by simp
next
  fix r :: rule and bufs :: "string \<times> string" and lastIndex x2 x y
  assume "exec (regexp r) (fst bufs) lastIndex = Some x2" and "(x, y) = x2"
  then have "exec (regexp r) (fst bufs) lastIndex = Some (x, y)" by simp
  from ink_decreases[OF this, of "snd bufs"]
  show "((r, mask_step r bufs x y, x + y), (r, bufs, lastIndex))
        \<in> measure (\<lambda>(r, bufs, li). ink (fst bufs))" by simp
qed

declare rule_loop.simps [simp del]

lemma rule_loop_no_match:
  "exec (regexp r) (fst bufs) li = None \<Longrightarrow> rule_loop r bufs li = bufs"
  by (simp add: rule_loop.simps)

lemma rule_loop_match:
  "exec (regexp r) (fst bufs) li = Some (i, n) \<Longrightarrow>
     rule_loop r bufs li = rule_loop r (mask_step r bufs i n) (i + n)"
  by (simp add: rule_loop.simps)

text \<open>The function \<open>rule_loop\<close> computes the one exit state of the loop.\<close>

lemma loop_run_rule_loop: "loop_run r bufs li out \<Longrightarrow> out = rule_loop r bufs li"
  by (induction rule: loop_run.induct) (simp_all add: rule_loop_no_match rule_loop_match)

lemma rule_loop_run: "loop_run r bufs li (rule_loop r bufs li)"
proof (induction r bufs li rule: rule_loop.induct)
  case (1 r bufs lastIndex)
  show ?case
  proof (cases "exec (regexp r) (fst bufs) lastIndex")
    case None
    then show ?thesis by (simp add: loop_exit rule_loop_no_match)
  next
    case (Some a)
    obtain i n where a: "a = (i, n)" by (cases a)
    with Some 1 have "loop_run r (mask_step r bufs i n) (i + n)
        (rule_loop r (mask_step r bufs i n) (i + n))" by simp
    with Some a show ?thesis using loop_iter[of r bufs lastIndex i n]
      by (simp add: rule_loop_match)
  qed
qed

lemma loop_run_iff: "loop_run r bufs li out \<longleftrightarrow> out = rule_loop r bufs li"
  using loop_run_rule_loop rule_loop_run by blast

lemma encode_run_encode: "encode_run text (encode text)"
  unfolding encode_def Let_def
  by (rule encode_runI) (rule rule_loop_run)+

text \<open>
  The relation is built from the functions \<open>exec\<close> and \<open>mask_step\<close>, so it has one outcome
  for each text. It says that the loops end; it says nothing about effects outside the
  two buffers, which the model does not represent.
\<close>

lemma encode_run_iff:
  "encode_run text html \<longleftrightarrow> html = encode text"
proof
  assume "encode_run text html"
  then show "html = encode text"
  proof (cases rule: encode_run.cases)
    case (encode_runI b1 b2 b3 b4 b5 b6 b7)
    then show ?thesis
      by (simp add: loop_run_iff encode_def Let_def)
  qed
next
  assume "html = encode text"
  then show "encode_run text html" by (simp add: encode_run_encode)
qed

section \<open>Matches and the white space around the text\<close>

text \<open>A match at the head of a text is still there when the text is continued.\<close>

lemma matchAt_extend_aux:
  "matchAt p s \<noteq> None \<Longrightarrow> matchAt p (s @ b) \<noteq> None"
proof (induction p s arbitrary: b rule: matchAt.induct)
  case (4 c p)
  then have "matchAt p ([] @ b) \<noteq> None" by simp
  then show ?case by (cases b) (auto split: option.splits)
next
  case (5 c p x xs)
  show ?case
  proof (cases "c x")
    case True
    show ?thesis
    proof (cases "matchAt p xs")
      case None
      with True 5 have "matchAt p ((x # xs) @ b) \<noteq> None" by simp
      with True show ?thesis by (auto split: option.splits)
    next
      case (Some k)
      with True 5 have "matchAt p (xs @ b) \<noteq> None" by simp
      with True show ?thesis by (auto split: option.splits)
    qed
  next
    case False
    with 5 show ?thesis by simp
  qed
next
  case (6 c p)
  then have "matchAt p ([] @ b) \<noteq> None" by simp
  then show ?case by (cases b) (auto split: option.splits)
next
  case (7 c p x xs)
  show ?case
  proof (cases "c x")
    case True
    show ?thesis
    proof (cases "matchAt ((Star, c) # p) xs")
      case None
      with True 7 have "matchAt p ((x # xs) @ b) \<noteq> None" by simp
      with True show ?thesis by (auto split: option.splits)
    next
      case (Some k)
      with True 7 have "matchAt ((Star, c) # p) (xs @ b) \<noteq> None" by simp
      with True show ?thesis by (auto split: option.splits)
    qed
  next
    case False
    with 7 show ?thesis by simp
  qed
next
  case (10 c p)
  then have "matchAt p ([] @ b) \<noteq> None" by simp
  then show ?case by (cases b) (auto split: option.splits)
next
  case (11 c p x xs)
  show ?case
  proof (cases "matchAt p (x # xs)")
    case None
    with 11 have "c x" and "matchAt ((LazyStar, c) # p) (xs @ b) \<noteq> None"
      by (auto split: if_splits)
    then show ?thesis by (auto split: option.splits)
  next
    case (Some k)
    with 11 have "matchAt p ((x # xs) @ b) \<noteq> None" by simp
    then show ?thesis by (auto split: option.splits)
  qed
qed (auto split: if_splits)

lemma search_from_complete:
  "search_from p s i = None \<Longrightarrow> k \<le> length s \<Longrightarrow> matchAt p (drop k s) = None"
proof (induction s arbitrary: i k)
  case Nil
  then show ?case by simp
next
  case (Cons x xs)
  then show ?case by (cases k) (auto split: option.splits)
qed

lemma trim_decompose: "\<exists>a b. t = a @ trim t @ b"
proof -
  let ?u = "dropWhile is_white_space t"
  have 1: "t = takeWhile is_white_space t @ ?u" by simp
  have "rev ?u = takeWhile is_white_space (rev ?u) @ dropWhile is_white_space (rev ?u)"
    by simp
  then have "?u = rev (dropWhile is_white_space (rev ?u)) @ rev (takeWhile is_white_space (rev ?u))"
    by (metis rev_append rev_rev_ident)
  then have "?u = trim t @ rev (takeWhile is_white_space (rev ?u))"
    by (simp add: trim_def)
  with 1 show ?thesis by metis
qed

text \<open>A pattern that matches nowhere in a text matches nowhere in the trimmed text.\<close>

lemma exec_trim_None:
  assumes "exec p t 0 = None"
  shows "exec p (trim t) 0 = None"
proof (rule ccontr)
  assume "exec p (trim t) 0 \<noteq> None"
  then obtain i n where e: "exec p (trim t) 0 = Some (i, n)" by auto
  from exec_sound[OF e] have le: "i + n \<le> length (trim t)"
    and m: "matchAt p (drop i (trim t)) = Some n" by auto
  obtain a b where t: "t = a @ trim t @ b" using trim_decompose by blast
  from le have "drop (length a + i) t = drop i (trim t) @ b"
    by (subst t) simp
  moreover from m have "matchAt p (drop i (trim t) @ b) \<noteq> None"
    by (simp add: matchAt_extend_aux)
  ultimately have "matchAt p (drop (length a + i) t) \<noteq> None" by simp
  moreover from assms have "search_from p t 0 = None" by (simp add: exec_def)
  moreover from le have "length a + i \<le> length t" by (subst t) simp
  ultimately show False using search_from_complete[of p t 0 "length a + i"] by simp
qed

lemma replacement_longer: "length m < length (replacement r m)"
  by (cases r) simp_all

section \<open>Joining the fragments\<close>

lemma join_from_newline:
  \<open>join_from k R (x # xs) ''\<newline>''
     = (if 0 < k then R @ ''\<newline>'' else R) @ spec_newline_joined (x # xs)\<close>
proof (induction xs arbitrary: k R x)
  case Nil
  then show ?case by simp
next
  case (Cons y ys)
  have \<open>join_from k R (x # y # ys) ''\<newline>''
        = join_from (Suc k) ((if 0 < k then R @ ''\<newline>'' else R) @ x) (y # ys) ''\<newline>''\<close>
    by (simp only: join_from.simps)
  also have \<open>\<dots> = (((if 0 < k then R @ ''\<newline>'' else R) @ x) @ ''\<newline>'')
                   @ spec_newline_joined (y # ys)\<close>
    by (subst Cons.IH) simp
  finally show ?case by simp
qed

lemma join_newline: \<open>join xs ''\<newline>'' = spec_newline_joined xs\<close>
  by (cases xs) (simp_all add: join_def join_from_newline del: join_from.simps(2))

section \<open>Leftmost matches\<close>




section \<open>The result buffer when it is aligned with the scan buffer\<close>

text \<open>
  When the result buffer holds the matched text at the index of the match and that text
  has no dollar sign, \<open>replaceAt\<close> puts the replacement exactly there.
\<close>

lemma replaceAt_aligned:
  assumes "i + n \<le> length res" and "CHR ''$'' \<notin> set rep"
  shows "replaceAt res (take n (drop i res)) i rep
         = take i res @ rep @ drop (i + n) res"
proof -
  have "drop i res = take n (drop i res) @ drop n (drop i res)"
    by (rule append_take_drop_id[symmetric])
  then have "indexOf (drop i res) (take n (drop i res)) = Some 0"
    using indexOf_prefix by metis
  moreover have "length (take n (drop i res)) = n" using assms by simp
  ultimately show ?thesis using assms(2)
    by (simp add: replaceAt_def replace_def getSubstitution_plain add.commute)
qed

lemma dollar_replacement: "CHR ''$'' \<in> set (replacement r m) \<longleftrightarrow> CHR ''$'' \<in> set m"
  by (cases r) auto

lemma result_buffer_step:
  assumes "exec (regexp r) str li = Some (i, n)"
    and "take n (drop i res) = take n (drop i str)" and "i + n \<le> length res"
    and "CHR ''$'' \<notin> set (take n (drop i str))"
  shows "snd (mask_step r (str, res) i n)
         = take i res @ replacement r (take n (drop i str)) @ drop (i + n) res"
  using assms replaceAt_aligned[of i n res "replacement r (take n (drop i str))"]
  by (simp add: mask_step_def Let_def dollar_replacement)

section \<open>What the masking guarantees\<close>

text \<open>
  The patterns of the last five loops have no character class that holds the space, so
  their matches never touch the spaces that mask an earlier match. The two comment
  patterns can run over spaces (\<open>.*\<close> and \<open>.*?\<close>).
\<close>

lemma matchAt_space_free:
  "space_free p \<Longrightarrow> matchAt p s = Some n \<Longrightarrow> CHR '' '' \<notin> set (take n s)"
proof (induction p s arbitrary: n rule: matchAt.induct)
  case (5 c p x xs)
  then show ?case by (cases "c x") (auto simp: space_free_def split: option.splits)
next
  case (7 c p x xs)
  then show ?case by (cases "c x") (auto simp: space_free_def split: option.splits)
next
  case (11 c p x xs)
  then show ?case by (cases "c x") (auto simp: space_free_def split: option.splits)
qed (auto simp: space_free_def split: if_splits)

lemma token_rules_space_free:
  "r \<noteq> LineComment \<Longrightarrow> r \<noteq> BlockComment \<Longrightarrow> space_free (regexp r)"
  by (cases r)
     (simp_all add: space_free_def lit_def is_radix_letter_def is_alnum_def is_word_def
        is_data_def is_digit_def is_octal_def)

lemma token_match_avoids_mask:
  assumes "r \<noteq> LineComment" and "r \<noteq> BlockComment"
    and "exec (regexp r) str li = Some (i, n)"
  shows "CHR '' '' \<notin> set (take n (drop i str))"
  using matchAt_space_free[OF token_rules_space_free[OF assms(1,2)] exec_sound(3)[OF assms(3)]] .

section \<open>The close-parenthesis loop\<close>











section \<open>Text after a match\<close>

lemma drop_shift:
  assumes "drop (a + L) s' = drop (a + n) s" and "a + n \<le> j" and "n \<le> L"
  shows "drop (j + (L - n)) s' = drop j s"
proof -
  from assms(2,3) have "j + (L - n) = (j - (a + n)) + (a + L)" by simp
  then have "drop (j + (L - n)) s' = drop (j - (a + n)) (drop (a + L) s')"
    by (simp only: drop_drop)
  also have "\<dots> = drop (j - (a + n)) (drop (a + n) s)" by (simp only: assms(1))
  also from assms(2) have "\<dots> = drop j s" by simp
  finally show ?thesis .
qed

section \<open>The claims\<close>

text \<open>
  C3. For the text \<open>foo(1,2)\<close> the four loops before the function-call-head loop change
  nothing; the function-call-head loop puts the opening tag of a span of class
  \<open>function\<close> before \<open>foo(\<close> and no closing tag; the close-parenthesis loop puts the closing
  tag after \<open>)\<close>; the output has the whole call inside that one span (the catch-all loop
  then wraps the two arguments inside it).
\<close>

theorem call_expression_bracketed:
  \<open>rule_loop Decorator (rule_loop Radix (rule_loop BlockComment
       (rule_loop LineComment (trim ''foo(1,2)'', trim ''foo(1,2)'') 0) 0) 0) 0
     = (''foo(1,2)'', ''foo(1,2)'')
   \<and> rule_loop FunctionHead (''foo(1,2)'', ''foo(1,2)'') 0
     = (replicate 27 CHR '' '' @ ''1,2)'', ''<span class="function">foo(1,2)'')
   \<and> rule_loop CloseParen (replicate 27 CHR '' '' @ ''1,2)'', ''<span class="function">foo(1,2)'') 0
     = (replicate 27 CHR '' '' @ ''1,2'' @ replicate 8 CHR '' '',
        ''<span class="function">foo(1,2)</span>'')
   \<and> encode ''foo(1,2)''
     = ''<span class="function">foo(<span class="data">1</span>,<span class="data">2</span>)</span>''\<close>
  by code_simp




text \<open>
  C4, as the code has it. \<open>encode\<close> returns for every text: a run of its seven loops
  exists and ends with the value \<open>encode text\<close>. For a text in which no pattern matches
  anywhere, that value is the trimmed text. Nothing is HTML-escaped, and the white space
  around the text is not kept.
\<close>

theorem encode_total_and_trims_unmatched:
  "encode_run text (encode text) \<and> (no_rule_matches text \<longrightarrow> encode text = trim text)"
proof
  show "encode_run text (encode text)" by (rule encode_run_encode)
next
  show "no_rule_matches text \<longrightarrow> encode text = trim text"
  proof
    assume a: "no_rule_matches text"
    have "r \<in> set rules" for r by (cases r) (simp_all add: rules_def)
    with a have "\<And>r. exec (regexp r) text 0 = None"
      by (simp add: no_rule_matches_def list_all_iff)
    then have "\<And>r. exec (regexp r) (trim text) 0 = None" by (rule exec_trim_None)
    then have "\<And>r. rule_loop r (trim text, trim text) 0 = (trim text, trim text)"
      by (simp add: rule_loop_no_match)
    then show "encode text = trim text" by (simp add: encode_def Let_def)
  qed
qed

theorem encode_total_and_trims_unmatched_witness:
  \<open>no_rule_matches '' + < '' \<and> encode_run '' + < '' ''+ <'' \<and> encode '' + < '' = ''+ <''\<close>
proof -
  have h: \<open>no_rule_matches '' + < ''\<close> by code_simp
  have t: \<open>trim '' + < '' = ''+ <''\<close> by code_simp
  from encode_total_and_trims_unmatched[of \<open>'' + < ''\<close>] h t show ?thesis by auto
qed

text \<open>
  C4 as stated fails: no pattern matches in the text made of a space and \<open><\<close>, and the
  output \<open><\<close> is neither that text unchanged nor its HTML-escaped form.
\<close>

theorem unmatched_text_not_unchanged:
  \<open>no_rule_matches '' <'' \<and> encode '' <'' = ''<''
   \<and> encode '' <'' \<noteq> '' <'' \<and> encode '' <'' \<noteq> spec_html_escape '' <''\<close>
  by code_simp

text \<open>
  C6, as the code has it. When a loop replaces a match of length \<open>n\<close> at offset \<open>i\<close>, the
  scan buffer keeps everything before \<open>i\<close> where it was, and everything after the match
  moves to the right by the growth of the replacement, its length minus \<open>n\<close>, which is
  positive: any pattern matches at offset \<open>j\<close> plus the growth of the new scan buffer as
  it did at offset \<open>j\<close> of the old one, for every \<open>j\<close> from the end of the match on. Later
  matches are therefore found at offsets shifted by the growth, not at their offsets in
  the original text. The result buffer moves in the same way provided it holds the
  matched text at offset \<open>i\<close> and the matched text has no dollar sign.
\<close>

theorem later_text_shifts_by_growth:
  assumes "exec (regexp r) str lastIndex = Some (i, n)"
  shows "take i (fst (mask_step r (str, result) i n)) = take i str
       \<and> n < length (replacement r (take n (drop i str)))
       \<and> drop (i + length (replacement r (take n (drop i str))))
           (fst (mask_step r (str, result) i n)) = drop (i + n) str
       \<and> length (fst (mask_step r (str, result) i n))
         = length str + (length (replacement r (take n (drop i str))) - n)
       \<and> (\<forall>j. i + n \<le> j \<longrightarrow>
            matchAt p (drop (j + (length (replacement r (take n (drop i str))) - n))
                         (fst (mask_step r (str, result) i n)))
            = matchAt p (drop j str))
       \<and> (take n (drop i result) = take n (drop i str)
            \<and> CHR ''$'' \<notin> set (take n (drop i str)) \<longrightarrow>
          take i (snd (mask_step r (str, result) i n)) = take i result
          \<and> drop (i + length (replacement r (take n (drop i str))))
               (snd (mask_step r (str, result) i n)) = drop (i + n) result
          \<and> length (snd (mask_step r (str, result) i n))
            = length result + (length (replacement r (take n (drop i str))) - n))"
proof -
  let ?m = "take n (drop i str)"
  let ?L = "length (replacement r ?m)"
  let ?str' = "fst (mask_step r (str, result) i n)"
  let ?res' = "snd (mask_step r (str, result) i n)"
  from exec_sound[OF assms] have le: "i + n \<le> length str"
    and m: "matchAt (regexp r) (drop i str) = Some n" by auto
  from le have len: "length ?m = n" by simp
  from matchAt_nonblank[OF regexp_nonblank m] have npos: "0 < n" by simp
  have s: "?str' = take i str @ replicate ?L CHR '' '' @ drop (i + n) str"
    by (rule scan_buffer_step[OF assms])
  from replacement_longer[of ?m r] len have nL: "n < ?L" by simp
  from le have d: "drop (i + ?L) ?str' = drop (i + n) str" by (simp add: s)
  have shift: "\<forall>j. i + n \<le> j \<longrightarrow>
                 matchAt p (drop (j + (?L - n)) ?str') = matchAt p (drop j str)"
    using drop_shift[OF d] nL by simp
  have res: "take i ?res' = take i result
             \<and> drop (i + ?L) ?res' = drop (i + n) result
             \<and> length ?res' = length result + (?L - n)"
    if a: "take n (drop i result) = ?m" and nd: "CHR ''$'' \<notin> set ?m"
  proof -
    from a len have "length (take n (drop i result)) = n" by simp
    with npos have ler: "i + n \<le> length result" by (simp add: min_def split: if_splits)
    have r: "?res' = take i result @ replacement r ?m @ drop (i + n) result"
      by (rule result_buffer_step[OF assms a ler nd])
    from ler nL show ?thesis by (simp add: r)
  qed
  from le nL d shift res show ?thesis by (simp add: s)
qed

theorem later_text_shifts_by_growth_witness:
  \<open>exec (regexp LineComment) ''//a\<newline>/*b*/'' 0 = Some (0, 3)
   \<and> (0::nat) + 3 \<le> 4
   \<and> matchAt (regexp BlockComment)
        (drop (4 + (32 - 3)) (fst (mask_step LineComment (''//a\<newline>/*b*/'', ''//a\<newline>/*b*/'') 0 3)))
       = Some 5
   \<and> CHR ''$'' \<notin> set (take 3 (drop 0 ''//a\<newline>/*b*/''))
   \<and> drop (0 + 32) (snd (mask_step LineComment (''//a\<newline>/*b*/'', ''//a\<newline>/*b*/'') 0 3))
       = ''\<newline>/*b*/''
   \<and> length (snd (mask_step LineComment (''//a\<newline>/*b*/'', ''//a\<newline>/*b*/'') 0 3))
       = length ''//a\<newline>/*b*/'' + (32 - 3)\<close>
proof -
  let ?t = \<open>''//a\<newline>/*b*/''\<close>
  have h: \<open>exec (regexp LineComment) ?t 0 = Some (0, 3)\<close> by code_simp
  have L: \<open>length (replacement LineComment (take 3 (drop 0 ?t))) = 32\<close> by code_simp
  have d: \<open>drop (0 + 3) ?t = ''\<newline>/*b*/''\<close> by code_simp
  have m: \<open>matchAt (regexp BlockComment) (drop 4 ?t) = Some 5\<close> by code_simp
  have nd: \<open>CHR ''$'' \<notin> set (take 3 (drop 0 ?t))\<close> by code_simp
  note T = later_text_shifts_by_growth[OF h, of ?t \<open>regexp BlockComment\<close>, unfolded L d]
  from T have sh: \<open>\<forall>j. 0 + 3 \<le> j \<longrightarrow>
      matchAt (regexp BlockComment)
        (drop (j + (32 - 3)) (fst (mask_step LineComment (?t, ?t) 0 3)))
      = matchAt (regexp BlockComment) (drop j ?t)\<close>
    by (elim conjE)
  have le: \<open>(0::nat) + 3 \<le> 4\<close> by simp
  from sh le have x: \<open>matchAt (regexp BlockComment)
        (drop (4 + (32 - 3)) (fst (mask_step LineComment (?t, ?t) 0 3)))
      = matchAt (regexp BlockComment) (drop 4 ?t)\<close>
    by blast
  from T nd have r: \<open>drop (0 + 32) (snd (mask_step LineComment (?t, ?t) 0 3)) = ''\<newline>/*b*/''
      \<and> length (snd (mask_step LineComment (?t, ?t) 0 3)) = length ?t + (32 - 3)\<close>
    by blast
  from h le x[unfolded m] nd r show ?thesis by blast
qed

text \<open>
  C6 as stated fails: in the text \<open>//a\<close>, newline, \<open>/*b*/\<close> the block comment is at offset 4,
  and after the line-comment loop the block-comment expression finds it at offset 33.
\<close>

theorem later_match_offset_shifted:
  \<open>exec (regexp BlockComment) (trim ''//a\<newline>/*b*/'') 0 = Some (4, 5)
   \<and> exec (regexp BlockComment)
        (fst (rule_loop LineComment (trim ''//a\<newline>/*b*/'', trim ''//a\<newline>/*b*/'') 0)) 0
       = Some (33, 5)\<close>
  by code_simp

text \<open>
  C8. The batch has one fragment per sample, in the order of the samples; the fragment
  of a sample is its \<open>toHTML\<close> applied to what \<open>FormatterInstances.get\<close> returns for its
  formatter id; \<open>getSampleHTML\<close> is these fragments with a newline between neighbours.
\<close>

theorem batch_rendered_in_order:
  "length (getAllFormattedSamples toHTML allSamples) = length allSamples
   \<and> (\<forall>i < length allSamples.
        getAllFormattedSamples toHTML allSamples ! i
          = toHTML (allSamples ! i) (FormatterInstances_get (formatter (allSamples ! i))))
   \<and> getSampleHTML toHTML allSamples
        = spec_newline_joined (getAllFormattedSamples toHTML allSamples)"
  by (simp add: getAllFormattedSamples_def getSampleHTML_def join_newline)

theorem batch_rendered_in_order_witness:
  \<open>(1::nat) < length [\<lparr>formatter = ''javascript''\<rparr>, \<lparr>formatter = ''unknown-lang''\<rparr>]
   \<and> getAllFormattedSamples
        (\<lambda>s v. if v = Instance LavendeuxFormatter then ''L:'' @ formatter s else ''J'')
        [\<lparr>formatter = ''javascript''\<rparr>, \<lparr>formatter = ''unknown-lang''\<rparr>] ! 1
       = ''L:unknown-lang''
   \<and> getSampleHTML
        (\<lambda>s v. if v = Instance LavendeuxFormatter then ''L:'' @ formatter s else ''J'')
        [\<lparr>formatter = ''javascript''\<rparr>, \<lparr>formatter = ''unknown-lang''\<rparr>]
       = ''J\<newline>L:unknown-lang''\<close>
  using batch_rendered_in_order
    [of \<open>\<lambda>s v. if v = Instance LavendeuxFormatter then ''L:'' @ formatter s else ''J''\<close>
        \<open>[\<lparr>formatter = ''javascript''\<rparr>, \<lparr>formatter = ''unknown-lang''\<rparr>]\<close>]
  by (simp add: getAllFormattedSamples_def FormatterInstances_get_def has_property_def
        get_property_def own_properties_def object_prototype_keys_def)

text \<open>
  C9. \<open>get\<close> is an own property of \<open>FormatterInstances\<close>, so the lookup of the name \<open>get\<close>
  returns the lookup function, which is no formatter instance. The lookup takes the
  fallback branch only for names other than \<open>lavendeux\<close>, \<open>javascript\<close> and \<open>get\<close>, and then
  it returns the lavendeux instance.
\<close>

theorem get_of_get_is_lookup_function:
  "FormatterInstances_get ''get'' = GetFunction
   \<and> (\<forall>c. FormatterInstances_get ''get'' \<noteq> Instance c)
   \<and> (\<not> has_property name \<longrightarrow>
        name \<notin> {''lavendeux'', ''javascript'', ''get''}
        \<and> FormatterInstances_get name = Instance LavendeuxFormatter)"
  by (auto simp: FormatterInstances_get_def has_property_def get_property_def
        own_properties_def)

theorem get_of_get_is_lookup_function_witness:
  "\<not> has_property ''unknown-lang''
   \<and> ''unknown-lang'' \<notin> {''lavendeux'', ''javascript'', ''get''}
   \<and> FormatterInstances_get ''unknown-lang'' = Instance LavendeuxFormatter"
proof -
  have h: "\<not> has_property ''unknown-lang''"
    by (simp add: has_property_def own_properties_def object_prototype_keys_def)
  from get_of_get_is_lookup_function[of "''unknown-lang''"] h show ?thesis by blast
qed

text \<open>
  C5 fails on the code: \<open>get\<close> and \<open>toString\<close> are not registered formatter names, and the
  lookup returns the lookup function for the first and the inherited method for the
  second, not the lavendeux instance. The name \<open>unknown-lang\<close> does fall back.
\<close>

theorem unregistered_name_not_defaulted:
  "\<not> registered ''get'' \<and> FormatterInstances_get ''get'' \<noteq> Instance LavendeuxFormatter
   \<and> \<not> registered ''toString''
   \<and> FormatterInstances_get ''toString'' = Inherited ''toString''
   \<and> \<not> registered ''unknown-lang''
   \<and> FormatterInstances_get ''unknown-lang'' = Instance LavendeuxFormatter"
  by (simp add: FormatterInstances_get_def has_property_def get_property_def
        own_properties_def registered_def object_prototype_keys_def)

text \<open>
  C2 fails on the code. For the text \<open>//$$\<close> the line-comment loop writes 33 spaces into
  the scan buffer, the length of the replacement, but \<open>replace\<close> reads \<open>$$\<close> in the
  replacement as one dollar sign, so the result buffer gets 32 characters: the buffers
  differ in length after the first step, and the output has lost a character of the
  comment.
\<close>

theorem dollar_pattern_desynchronises:
  \<open>rule_loop LineComment (trim ''//$$'', trim ''//$$'') 0
     = (replicate 33 CHR '' '', ''<span class="comment">//$</span>'')
   \<and> length (replacement LineComment ''//$$'') = 33
   \<and> length (fst (rule_loop LineComment (trim ''//$$'', trim ''//$$'') 0)) = 33
   \<and> length (snd (rule_loop LineComment (trim ''//$$'', trim ''//$$'') 0)) = 32
   \<and> encode ''//$$'' = ''<span class="comment">//$</span>''\<close>
  by code_simp

text \<open>
  C1 fails on the code. In the text below the line-comment loop consumes \<open>//\<close> inside the
  block comment and \<open>//---00\<close> at the end. The block-comment match then runs over the
  spaces that mask \<open>//\<close>; this text does not occur in the result buffer, so only the
  scan buffer grows. The radix loop finds the free \<open>00\<close> at offset 65 of the scan buffer,
  and \<open>replaceAt\<close> looks for \<open>00\<close> in the result buffer from offset 65 on, where the only
  one is inside the last comment: the radix span is put inside the comment span.
\<close>

theorem later_span_inside_consumed_region:
  \<open>rule_loop LineComment (trim ''/*//\<newline>*/00//---00'', trim ''/*//\<newline>*/00//---00'') 0
     = (''/*'' @ replicate 31 CHR '' '' @ ''\<newline>*/00'' @ replicate 36 CHR '' '',
        ''/*<span class="comment">//</span>\<newline>*/00<span class="comment">//---00</span>'')
   \<and> rule_loop BlockComment
        (''/*'' @ replicate 31 CHR '' '' @ ''\<newline>*/00'' @ replicate 36 CHR '' '',
         ''/*<span class="comment">//</span>\<newline>*/00<span class="comment">//---00</span>'') 0
     = (replicate 65 CHR '' '' @ ''00'' @ replicate 36 CHR '' '',
        ''/*<span class="comment">//</span>\<newline>*/00<span class="comment">//---00</span>'')
   \<and> exec (regexp Radix) (replicate 65 CHR '' '' @ ''00'' @ replicate 36 CHR '' '') 0
     = Some (65, 2)
   \<and> encode ''/*//\<newline>*/00//---00''
     = ''/*<span class="comment">//</span>\<newline>*/00<span class="comment">//---<span class="radix">00</span></span>''\<close>
  by code_simp

end
